theory Spec2Isabelle
  imports Complex_Main "HOL-Library.Sublist"
begin

section \<open>Python values and string operations used by \<open>client.py\<close>\<close>

text \<open>
  Python strings and byte strings are lists of \<open>char\<close>. The exceptions the client meets
  carry the text that \<open>str(e)\<close> would give.
\<close>

type_synonym bytes = "char list"

datatype py_error =
    OSError string
  | KeyError string
  | TypeError string
  | ValueError string
  | OverflowError string

fun error_text :: "py_error \<Rightarrow> string" where
  "error_text (OSError s) = s"
| "error_text (KeyError s) = s"
| "error_text (TypeError s) = s"
| "error_text (ValueError s) = s"
| "error_text (OverflowError s) = s"

text \<open>What \<open>response.json()\<close> can hold.\<close>

datatype json =
    JNull
  | JBool bool
  | JNum int
  | JStr string
  | JList "json list"
  | JDict "(string \<times> json) list"

text \<open>\<open>str(n)\<close> of an integer, as \<open>str.format\<close> and \<open>%d\<close> render it.\<close>

fun str_nat :: "nat \<Rightarrow> string" where
  "str_nat n =
     (if n < 10 then [''0123456789'' ! n]
      else str_nat (n div 10) @ [''0123456789'' ! (n mod 10)])"

declare str_nat.simps [simp del]

definition str_int :: "int \<Rightarrow> string" where
  "str_int i = (if i < 0 then ''-'' @ str_nat (nat (- i)) else str_nat (nat i))"

text \<open>
  \<open>s.split(sep)\<close>: the separator is searched from the left, and the search resumes after
  each occurrence found, so occurrences never overlap. \<open>cur\<close> is the piece being read.
  Python raises \<open>ValueError\<close> on an empty separator; the client splits at \<open>/www/\<close> only.
\<close>

function split_from :: "string \<Rightarrow> string \<Rightarrow> string \<Rightarrow> string list" where
  "split_from sep cur [] = [cur]"
| "split_from sep cur (x # xs) =
     (if sep \<noteq> [] \<and> prefix sep (x # xs)
      then cur # split_from sep [] (drop (length sep) (x # xs))
      else split_from sep (cur @ [x]) xs)"
  by pat_completeness auto
termination
  by (relation "measure (\<lambda>(sep, cur, s). length s)") auto

text \<open>\<open>xs[:n]\<close>: a negative bound counts from the end.\<close>

definition slice_to :: "'a list \<Rightarrow> int \<Rightarrow> 'a list" where
  "slice_to xs n = (if n < 0 then take (nat (int (length xs) + n)) xs else take (nat n) xs)"

text \<open>\<open>os.path.join(a, b)\<close> of \<open>posixpath\<close>, for two components.\<close>

definition os_path_join :: "string \<Rightarrow> string \<Rightarrow> string" where
  "os_path_join a b =
     (if prefix ''/'' b then b
      else if a = [] \<or> suffix ''/'' a then a @ b
      else a @ ''/'' @ b)"

section \<open>The client, the file system and what a call does\<close>

text \<open>
  The fields \<open>__init__\<close> sets. \<open>img_dir\<close> is \<open>None\<close> or a string; \<open>state\<close> is the
  attribute \<open>_state\<close>, which does not exist (\<open>None\<close> here) until a call assigns it.
  \<open>data\<close> is the dict of snapshots.
\<close>

record client =
  data :: "string \<rightharpoonup> json"
  host :: string
  ssl :: string
  port :: int
  api_key :: string
  user_id :: string
  max_items :: int
  show_episodes :: string
  img_dir :: "string option"
  img_cache_days :: int
  state :: "string option"

text \<open>A file has a last-modified time (seconds, as \<open>time.time()\<close> counts) and a content.\<close>

record file_node =
  mtime :: real
  content :: bytes

type_synonym fs = "string \<rightharpoonup> file_node"

datatype level = DEBUG | INFO | WARNING | ERROR

text \<open>What a call does besides returning: log records, requests, file system calls.\<close>

datatype event =
    LogMsg level string
  | HttpGet string
  | PathExists string
  | MakeDirs string
  | ListDir string
  | GetMtime string
  | Remove string
  | OpenWrite string
  | WriteChunk string bytes

text \<open>The field assignments of \<open>__init__\<close>.\<close>

definition new_client ::
  "string \<Rightarrow> string \<Rightarrow> bool \<Rightarrow> int \<Rightarrow> int \<Rightarrow> string \<Rightarrow> bool \<Rightarrow> string option \<Rightarrow> int \<Rightarrow> client" where
  "new_client host' api_key' ssl' port' max_items' user_id' show_episodes' img_dir' img_cache_days' =
     \<lparr> data = Map.empty,
       host = host',
       ssl = (if ssl' then ''s'' else ''''),
       port = port',
       api_key = api_key',
       user_id = user_id',
       max_items = max_items',
       show_episodes = (if show_episodes' then ''&GroupItems=False'' else ''''),
       img_dir = img_dir',
       img_cache_days = img_cache_days',
       state = None \<rparr>"

text \<open>\<open>not self.img_dir\<close>: \<open>None\<close> and the empty string are falsy.\<close>

definition img_dir_falsy :: "client \<Rightarrow> bool" where
  "img_dir_falsy c = (case img_dir c of None \<Rightarrow> True | Some d \<Rightarrow> d = [])"

section \<open>\<open>get_image_url\<close>\<close>

definition emby_image_url :: "client \<Rightarrow> string \<Rightarrow> string \<Rightarrow> string" where
  "emby_image_url c itemId imageType =
     ''http'' @ ssl c @ ''://'' @ host c @ '':'' @ str_int (port c) @ ''/Items/'' @ itemId
       @ ''/Images/'' @ imageType @ ''?maxHeight=360&maxWidth=640&quality=90&api_key='' @ api_key c"

text \<open>
  Lines 162 to 164. \<open>md5_hexdigest s\<close> stands for
  \<open>hashlib.md5(s.encode()).hexdigest()\<close>, a function of the standard library that these
  definitions take as a parameter.
\<close>

definition image_filename :: "(string \<Rightarrow> string) \<Rightarrow> string \<Rightarrow> string \<Rightarrow> string" where
  "image_filename md5_hexdigest itemId imageType =
     (let filename_base = itemId @ ''_'' @ imageType;
          filename_hash = take 8 (md5_hexdigest filename_base)
      in filename_base @ ''_'' @ filename_hash @ ''.jpg'')"

definition image_filepath :: "(string \<Rightarrow> string) \<Rightarrow> string \<Rightarrow> string \<Rightarrow> string \<Rightarrow> string" where
  "image_filepath md5_hexdigest d itemId imageType =
     os_path_join d (image_filename md5_hexdigest itemId imageType)"

text \<open>Lines 179 and 180: the last piece of the directory split at \<open>/www/\<close>.\<close>

definition local_path :: "string \<Rightarrow> string" where
  "local_path d = last (split_from ''/www/'' [] d)"

definition local_url :: "string \<Rightarrow> string \<Rightarrow> string" where
  "local_url d filename = ''/local/'' @ local_path d @ ''/'' @ filename"

text \<open>
  The call returns its string, the thread it started (the arguments of
  \<open>download_image_sync\<close>) if any, and its events.
\<close>

definition get_image_url ::
  "(string \<Rightarrow> string) \<Rightarrow> client \<Rightarrow> fs \<Rightarrow> string \<Rightarrow> string
     \<Rightarrow> string \<times> (string \<times> string) option \<times> event list" where
  "get_image_url md5_hexdigest c fs itemId imageType =
     (let emby_url = emby_image_url c itemId imageType in
      case img_dir c of
        None \<Rightarrow> (emby_url, None, [])
      | Some d \<Rightarrow>
          if d = [] then (emby_url, None, [])
          else
            let filename = image_filename md5_hexdigest itemId imageType;
                filepath = image_filepath md5_hexdigest d itemId imageType;
                thread = (if fs filepath = None then Some (emby_url, filename) else None)
            in if sublist ''/www/'' d
               then (local_url d filename, thread, [PathExists filepath])
               else (emby_url, thread,
                     [PathExists filepath,
                      LogMsg WARNING ''Image directory doesn't contain /www/'']))"

section \<open>\<open>get_view_categories\<close> and \<open>get_data\<close>\<close>

text \<open>
  What \<open>requests.get\<close> does for a metadata request: it raises (every exception of
  \<open>requests\<close> is an \<open>OSError\<close>), or it gives a response with a status code and what
  \<open>response.json()\<close> returns or raises.
\<close>

datatype http_reply =
    NoReply string
  | Reply int "py_error + json"

text \<open>\<open>j[key]\<close> for a string key and \<open>j[:n]\<close>.\<close>

fun json_getitem :: "json \<Rightarrow> string \<Rightarrow> py_error + json" where
  "json_getitem (JDict kvs) k =
     (case map_of kvs k of None \<Rightarrow> Inl (KeyError k) | Some v \<Rightarrow> Inr v)"
| "json_getitem (JList xs) k = Inl (TypeError ''list indices must be integers or slices, not str'')"
| "json_getitem (JStr s) k = Inl (TypeError ''string indices must be integers'')"
| "json_getitem j k = Inl (TypeError ''object is not subscriptable'')"

fun json_slice_to :: "json \<Rightarrow> int \<Rightarrow> py_error + json" where
  "json_slice_to (JList xs) n = Inr (JList (slice_to xs n))"
| "json_slice_to (JStr s) n = Inr (JStr (slice_to s n))"
| "json_slice_to (JDict kvs) n = Inl (TypeError ''unhashable type: slice'')"
| "json_slice_to j n = Inl (TypeError ''object is not subscriptable'')"

text \<open>\<open>return self.data[key]\<close>.\<close>

definition return_data :: "client \<Rightarrow> string \<Rightarrow> py_error + json option" where
  "return_data c key = (case data c key of None \<Rightarrow> Inl (KeyError key) | Some v \<Rightarrow> Inr (Some v))"

definition unreachable :: "client \<Rightarrow> client" where
  "unreachable c = c\<lparr>state := Some (host c @ '' cannot be reached'')\<rparr>"

definition views_url :: "client \<Rightarrow> string" where
  "views_url c =
     ''http'' @ ssl c @ ''://'' @ host c @ '':'' @ str_int (port c) @ ''/Users/'' @ user_id c
       @ ''/Views?api_key='' @ api_key c"

text \<open>
  A call returns \<open>Inl e\<close> when the exception \<open>e\<close> leaves it, \<open>Inr None\<close> for a bare
  \<open>return\<close>, \<open>Inr (Some v)\<close> for \<open>return v\<close>; with it come the client as the call
  leaves it and the events.
\<close>

definition get_view_categories ::
  "client \<Rightarrow> http_reply \<Rightarrow> (py_error + json option) \<times> client \<times> event list" where
  "get_view_categories c reply =
     (let url = views_url c in
      case reply of
        NoReply e \<Rightarrow>
          (Inr None, unreachable c,
           [HttpGet url, LogMsg WARNING (''Host '' @ host c @ '' is not available'')])
      | Reply status_code body \<Rightarrow>
          if status_code = 200 then
            (case body of
               Inl e \<Rightarrow> (Inl e, c, [HttpGet url])
             | Inr j \<Rightarrow>
                 (case json_getitem j ''Items'' of
                    Inl e \<Rightarrow> (Inl e, c, [HttpGet url])
                  | Inr items \<Rightarrow>
                      let c' = c\<lparr>data := (data c)(''ViewCategories'' \<mapsto> items)\<rparr>
                      in (return_data c' ''ViewCategories'', c', [HttpGet url])))
          else
            let c' = unreachable c
            in (return_data c' ''ViewCategories'', c',
                [HttpGet url, LogMsg WARNING (''Could not reach url '' @ url)]))"

definition latest_url :: "client \<Rightarrow> string \<Rightarrow> string" where
  "latest_url c categoryId =
     ''http'' @ ssl c @ ''://'' @ host c @ '':'' @ str_int (port c) @ ''/Users/'' @ user_id c
       @ ''/Items/Latest?Limit='' @ str_int (max_items c)
       @ ''&Fields=CommunityRating,Studios,PremiereDate,Genres,ChildCount,ProductionYear,DateCreated''
       @ ''&ParentId='' @ categoryId @ ''&api_key='' @ api_key c @ show_episodes c"

definition get_data ::
  "client \<Rightarrow> string \<Rightarrow> http_reply \<Rightarrow> (py_error + json option) \<times> client \<times> event list" where
  "get_data c categoryId reply =
     (let url = latest_url c categoryId in
      case reply of
        NoReply e \<Rightarrow>
          (Inr None, unreachable c,
           [HttpGet url, LogMsg WARNING (''Host '' @ host c @ '' is not available'')])
      | Reply status_code body \<Rightarrow>
          if status_code = 200 then
            (let c1 = c\<lparr>state := Some ''Online''\<rparr> in
             case body of
               Inl e \<Rightarrow> (Inl e, c1, [HttpGet url])
             | Inr j \<Rightarrow>
                 (case json_slice_to j (max_items c) of
                    Inl e \<Rightarrow> (Inl e, c1, [HttpGet url])
                  | Inr items \<Rightarrow>
                      let c' = c1\<lparr>data := (data c1)(categoryId \<mapsto> items)\<rparr>
                      in (return_data c' categoryId, c', [HttpGet url])))
          else
            (Inr None, unreachable c,
             [HttpGet url, LogMsg WARNING (''Could not reach url '' @ url)]))"

section \<open>\<open>download_image_sync\<close>\<close>

text \<open>
  What the image request does: \<open>requests.get\<close> raises, or it gives a status code; for
  status 200 the loop over \<open>iter_content\<close> writes the chunks listed and then ends, or
  stops at the exception given, which \<open>iter_content\<close> or \<open>f.write\<close> raised.
\<close>

datatype image_reply =
    NoImage py_error
  | Image int "bytes list" "py_error option"

text \<open>
  \<open>open_error\<close> is the exception of \<open>open(filepath, 'wb')\<close>, if it raises; \<open>now\<close> is the
  time of the write. The \<open>with\<close> block closes the file when the loop raises, so what was
  written stays in the file.
\<close>

definition download_image_sync ::
  "client \<Rightarrow> fs \<Rightarrow> real \<Rightarrow> py_error option \<Rightarrow> image_reply \<Rightarrow> string \<Rightarrow> string
     \<Rightarrow> bool \<times> fs \<times> event list" where
  "download_image_sync c fs now open_error reply url filename =
     (let failed = (\<lambda>e. LogMsg ERROR (''Error downloading image: '' @ error_text e)) in
      case reply of
        NoImage e \<Rightarrow> (False, fs, [HttpGet url, failed e])
      | Image status_code chunks loop_error \<Rightarrow>
          if status_code = 200 then
            (case img_dir c of
               None \<Rightarrow>
                 (False, fs,
                  [HttpGet url,
                   failed (TypeError ''expected str, bytes or os.PathLike object, not NoneType'')])
             | Some d \<Rightarrow>
                 (let filepath = os_path_join d filename in
                  case open_error of
                    Some e \<Rightarrow> (False, fs, [HttpGet url, OpenWrite filepath, failed e])
                  | None \<Rightarrow>
                     let fs' = fs(filepath \<mapsto> \<lparr>mtime = now, content = concat chunks\<rparr>);
                         written = [HttpGet url, OpenWrite filepath] @ map (WriteChunk filepath) chunks
                     in (case loop_error of
                           Some e \<Rightarrow> (False, fs', written @ [failed e])
                         | None \<Rightarrow>
                             (case fs' filepath of
                                Some f \<Rightarrow>
                                  (True, fs',
                                   written @ [PathExists filepath,
                                     LogMsg INFO (''Downloaded: '' @ filename @ '' (''
                                       @ str_nat (length (content f)) @ '' bytes)'')])
                              | None \<Rightarrow>
                                  (False, fs',
                                   written @ [PathExists filepath,
                                     LogMsg ERROR (''File not created: '' @ filepath)])))))
          else
            (False, fs,
             [HttpGet url, LogMsg WARNING (''Download failed, status: '' @ str_int status_code)]))"

section \<open>\<open>cleanup_old_images\<close> and \<open>__init__\<close>\<close>

text \<open>
  The sweep reads the cache directory as \<open>os.listdir\<close> gives it. The state of the
  directory is one of: nothing exists at the path; \<open>os.listdir\<close> raises on it; or its
  entries, each a name with the file under that name, in the order of the listing. The
  path \<open>os.path.join(img_dir, name)\<close> is the entry called \<open>name\<close>.
\<close>

type_synonym entries = "(string \<times> file_node) list"

datatype cache_dir =
    NoDir
  | Unlistable py_error
  | Dir entries

text \<open>
  \<open>current_time - (self.img_cache_days * 86400)\<close>: the product is an exact \<open>int\<close>, which the
  subtraction converts to a float; the conversion raises \<open>OverflowError\<close> from
  \<open>2^1024 - 2^970\<close> on, the first magnitude that rounds beyond the largest double. The
  rounding of floats is left out: times are real numbers.
\<close>

definition py_float :: "int \<Rightarrow> py_error + real" where
  "py_float n =
     (if 2 ^ 1024 - 2 ^ 970 \<le> \<bar>n\<bar>
      then Inl (OverflowError ''int too large to convert to float'')
      else Inr (of_int n))"

definition cutoff :: "client \<Rightarrow> real \<Rightarrow> py_error + real" where
  "cutoff c current_time =
     (case py_float (img_cache_days c * 86400) of
        Inl e \<Rightarrow> Inl e
      | Inr seconds \<Rightarrow> Inr (current_time - seconds))"

text \<open>
  The body of the loop of lines 127 to 142 for one name, on the entries, the count of
  deletions and the events so far. \<open>os.path.getmtime\<close> raises when the entry is not there;
  \<open>remove_error p\<close> is the exception of \<open>os.remove(p)\<close>, if it raises.
\<close>

definition visit ::
  "string \<Rightarrow> real \<Rightarrow> (string \<Rightarrow> py_error option) \<Rightarrow> string
     \<Rightarrow> entries \<times> nat \<times> event list \<Rightarrow> entries \<times> nat \<times> event list" where
  "visit d cutoff_time remove_error filename acc =
     (case acc of
        (es, deleted_count, evs) \<Rightarrow>
          let filepath = os_path_join d filename;
              could_not = (\<lambda>e. LogMsg WARNING
                             (''Could not delete '' @ filename @ '': '' @ error_text e))
          in if \<not> suffix ''.jpg'' filename then (es, deleted_count, evs)
             else
               (case map_of es filename of
                  None \<Rightarrow>
                    (es, deleted_count,
                     evs @ [GetMtime filepath,
                            could_not (OSError (''No such file or directory: '' @ filepath))])
                | Some f \<Rightarrow>
                    if mtime f < cutoff_time then
                      (case remove_error filepath of
                         Some e \<Rightarrow>
                           (es, deleted_count,
                            evs @ [GetMtime filepath, Remove filepath, could_not e])
                       | None \<Rightarrow>
                           (filter (\<lambda>entry. fst entry \<noteq> filename) es, deleted_count + 1,
                            evs @ [GetMtime filepath, Remove filepath,
                                   LogMsg DEBUG (''Deleted old image: '' @ filename)]))
                    else (es, deleted_count, evs @ [GetMtime filepath])))"

text \<open>When the body of the loop removes the entry of a name.\<close>

definition deletes ::
  "string \<Rightarrow> real \<Rightarrow> (string \<Rightarrow> py_error option) \<Rightarrow> entries \<Rightarrow> string \<Rightarrow> bool" where
  "deletes d cutoff_time remove_error es filename =
     (suffix ''.jpg'' filename
      \<and> (case map_of es filename of None \<Rightarrow> False | Some f \<Rightarrow> mtime f < cutoff_time)
      \<and> remove_error (os_path_join d filename) = None)"

fun sweep ::
  "string \<Rightarrow> real \<Rightarrow> (string \<Rightarrow> py_error option) \<Rightarrow> string list
     \<Rightarrow> entries \<times> nat \<times> event list \<Rightarrow> entries \<times> nat \<times> event list" where
  "sweep d cutoff_time remove_error [] acc = acc"
| "sweep d cutoff_time remove_error (filename # rest) acc =
     sweep d cutoff_time remove_error rest (visit d cutoff_time remove_error filename acc)"

text \<open>
  Lines 119 to 148. The cutoff is computed before the directory is listed; what the outer
  \<open>try\<close> catches is logged as an error and ends the sweep.
\<close>

definition cleanup_old_images ::
  "client \<Rightarrow> cache_dir \<Rightarrow> real \<Rightarrow> (string \<Rightarrow> py_error option) \<Rightarrow> cache_dir \<times> event list" where
  "cleanup_old_images c dir current_time remove_error =
     (let during = (\<lambda>e. LogMsg ERROR (''Error during cleanup: '' @ error_text e)) in
      case img_dir c of
        None \<Rightarrow> (dir, [])
      | Some d \<Rightarrow>
          if d = [] then (dir, [])
          else
            (case dir of
               NoDir \<Rightarrow> (dir, [PathExists d])
             | Unlistable e \<Rightarrow>
                 (case cutoff c current_time of
                    Inl e' \<Rightarrow> (dir, [PathExists d, during e'])
                  | Inr cutoff_time \<Rightarrow> (dir, [PathExists d, ListDir d, during e]))
             | Dir es \<Rightarrow>
                 (case cutoff c current_time of
                    Inl e' \<Rightarrow> (dir, [PathExists d, during e'])
                  | Inr cutoff_time \<Rightarrow>
                      (case sweep d cutoff_time remove_error (map fst es)
                              (es, 0, [PathExists d, ListDir d]) of
                         (es', deleted_count, evs) \<Rightarrow>
                           (Dir es',
                            evs @ (if deleted_count > 0
                                   then [LogMsg INFO (''Cleaned up '' @ str_nat deleted_count
                                           @ '' old images (older than ''
                                           @ str_int (img_cache_days c) @ '' days)'')]
                                   else []))))))"

text \<open>
  \<open>__init__\<close>: \<open>makedirs_error\<close> is the exception of \<open>os.makedirs\<close>, if it raises; it
  leaves the constructor. Otherwise the directory exists from then on.
\<close>

definition init ::
  "string \<Rightarrow> string \<Rightarrow> bool \<Rightarrow> int \<Rightarrow> int \<Rightarrow> string \<Rightarrow> bool \<Rightarrow> string option \<Rightarrow> int
     \<Rightarrow> cache_dir \<Rightarrow> real \<Rightarrow> py_error option \<Rightarrow> (string \<Rightarrow> py_error option)
     \<Rightarrow> py_error + client \<times> cache_dir \<times> event list" where
  "init host' api_key' ssl' port' max_items' user_id' show_episodes' img_dir' img_cache_days'
        dir current_time makedirs_error remove_error =
     (let c = new_client host' api_key' ssl' port' max_items' user_id' show_episodes' img_dir'
                img_cache_days'
      in case img_dir c of
           None \<Rightarrow> Inr (c, dir, [])
         | Some d \<Rightarrow>
             if d = [] then Inr (c, dir, [])
             else
               (case makedirs_error of
                  Some e \<Rightarrow> Inl e
                | None \<Rightarrow>
                    (case cleanup_old_images c (case dir of NoDir \<Rightarrow> Dir [] | _ \<Rightarrow> dir)
                            current_time remove_error of
                       (dir', evs) \<Rightarrow>
                         Inr (c, dir',
                              [MakeDirs d, LogMsg INFO (''Image directory: '' @ d)] @ evs))))"

section \<open>Calls and downloads in any order\<close>

text \<open>
  The threads that \<open>get_image_url\<close> starts run \<open>download_image_sync\<close> later. A world is
  the file system with the threads started and not yet run; an action is a call of
  \<open>get_image_url\<close>, or the run of the thread at a position of the list, with what the
  network and \<open>open\<close> answer to it and the time.
\<close>

record world =
  files :: fs
  threads :: "(string \<times> string) list"

datatype action =
    Resolve string string
  | Finish nat real "py_error option" image_reply

fun step :: "(string \<Rightarrow> string) \<Rightarrow> client \<Rightarrow> world \<Rightarrow> action \<Rightarrow> world" where
  "step md5_hexdigest c w (Resolve itemId imageType) =
     (case get_image_url md5_hexdigest c (files w) itemId imageType of
        (url, thread, evs) \<Rightarrow>
          w\<lparr>threads := threads w @ (case thread of None \<Rightarrow> [] | Some t \<Rightarrow> [t])\<rparr>)"
| "step md5_hexdigest c w (Finish k now open_error reply) =
     (if k < length (threads w) then
        (case threads w ! k of
           (url, filename) \<Rightarrow>
             (case download_image_sync c (files w) now open_error reply url filename of
                (ok, fs', evs) \<Rightarrow>
                  \<lparr>files = fs', threads = take k (threads w) @ drop (Suc k) (threads w)\<rparr>))
      else w)"

definition run :: "(string \<Rightarrow> string) \<Rightarrow> client \<Rightarrow> world \<Rightarrow> action list \<Rightarrow> world" where
  "run md5_hexdigest c w acts = foldl (step md5_hexdigest c) w acts"

fun resolved :: "action list \<Rightarrow> (string \<times> string) list" where
  "resolved [] = []"
| "resolved (Resolve itemId imageType # acts) = (itemId, imageType) # resolved acts"
| "resolved (Finish k now open_error reply # acts) = resolved acts"


section \<open>Properties of the string operations\<close>

lemma split_from_nonempty: "split_from sep cur s \<noteq> []"
  by (induction sep cur s rule: split_from.induct) auto

lemma split_from_no_sep: "\<not> sublist sep s \<Longrightarrow> split_from sep cur s = [cur @ s]"
proof (induction sep cur s rule: split_from.induct)
  case (1 sep cur)
  then show ?case by simp
next
  case (2 sep cur x xs)
  from "2.prems" have np: "\<not> prefix sep (x # xs)" and ns: "\<not> sublist sep xs"
    by (auto simp: sublist_Cons_right)
  with "2.IH"(2) show ?case by simp
qed

text \<open>When the separator occurs, the last piece is what follows one of its occurrences.\<close>

lemma split_from_last_after:
  "sep \<noteq> [] \<Longrightarrow> sublist sep s \<Longrightarrow> \<exists>pre. s = pre @ sep @ last (split_from sep cur s)"
proof (induction sep cur s rule: split_from.induct)
  case (1 sep cur)
  then show ?case by simp
next
  case (2 sep cur x xs)
  show ?case
  proof (cases "prefix sep (x # xs)")
    case True
    define rest where "rest = drop (length sep) (x # xs)"
    from True have whole: "x # xs = sep @ rest"
      by (auto simp: rest_def prefix_def)
    have l: "last (split_from sep cur (x # xs)) = last (split_from sep [] rest)"
      using True "2.prems"(1) by (simp add: rest_def split_from_nonempty)
    show ?thesis
    proof (cases "sublist sep rest")
      case True
      with "2.IH"(1) "2.prems"(1) \<open>prefix sep (x # xs)\<close>
      obtain pre where "rest = pre @ sep @ last (split_from sep [] rest)"
        by (auto simp: rest_def)
      with whole l have "x # xs = (sep @ pre) @ sep @ last (split_from sep cur (x # xs))"
        by simp
      then show ?thesis by blast
    next
      case False
      then have "last (split_from sep [] rest) = rest"
        by (simp add: split_from_no_sep)
      with whole l have "x # xs = [] @ sep @ last (split_from sep cur (x # xs))"
        by simp
      then show ?thesis by blast
    qed
  next
    case False
    with "2.prems"(2) have "sublist sep xs"
      by (simp add: sublist_Cons_right)
    with "2.IH"(2) False "2.prems"(1)
    obtain pre where "xs = pre @ sep @ last (split_from sep (cur @ [x]) xs)"
      by auto
    with False have "x # xs = (x # pre) @ sep @ last (split_from sep cur (x # xs))"
      by simp
    then show ?thesis by blast
  qed
qed

lemma no_start_no_sublist:
  assumes "sep \<noteq> []" "\<forall>i<length cur. \<not> prefix sep (drop i cur)"
  shows "\<not> sublist sep cur"
proof
  assume "sublist sep cur"
  then obtain ps ss where c: "cur = ps @ sep @ ss"
    by (auto simp: sublist_def)
  with assms(1) have "length ps < length cur" by (cases sep) auto
  with assms(2) have "\<not> prefix sep (drop (length ps) cur)" by blast
  with c show False by simp
qed

text \<open>
  The last piece holds no separator, as long as none starts inside the piece being read.
\<close>

lemma split_from_last_clean:
  "sep \<noteq> [] \<Longrightarrow> \<forall>i<length cur. \<not> prefix sep (drop i (cur @ s))
     \<Longrightarrow> \<not> sublist sep (last (split_from sep cur s))"
proof (induction sep cur s rule: split_from.induct)
  case (1 sep cur)
  then show ?case using no_start_no_sublist [of sep cur] by simp
next
  case (2 sep cur x xs)
  show ?case
  proof (cases "prefix sep (x # xs)")
    case True
    with "2.IH"(1) "2.prems"(1) show ?thesis
      by (simp add: split_from_nonempty)
  next
    case False
    have "\<forall>i<length (cur @ [x]). \<not> prefix sep (drop i ((cur @ [x]) @ xs))"
    proof (intro allI impI)
      fix i assume "i < length (cur @ [x])"
      then consider "i < length cur" | "i = length cur" by fastforce
      then show "\<not> prefix sep (drop i ((cur @ [x]) @ xs))"
      proof cases
        case 1
        with "2.prems"(2) show ?thesis by simp
      next
        case 2
        with False show ?thesis by simp
      qed
    qed
    with "2.IH"(2) False "2.prems"(1) show ?thesis by simp
  qed
qed

lemma local_path_after_marker:
  assumes "sublist ''/www/'' d"
  shows "\<exists>pre. d = pre @ ''/www/'' @ local_path d"
  unfolding local_path_def using assms by (intro split_from_last_after) simp_all

lemma local_path_no_marker: "\<not> sublist ''/www/'' (local_path d)"
  unfolding local_path_def by (rule split_from_last_clean) simp_all

lemma local_path_example: "local_path ''/config/www/emby_images'' = ''emby_images''"
  by (simp add: local_path_def)

lemma str_int_8096: "str_int 8096 = ''8096''"
  by (simp add: str_int_def str_nat.simps)

section \<open>The claims about \<open>get_image_url\<close>\<close>

text \<open>
  C1. With a cache directory configured, the file name that \<open>get_image_url\<close> computes for
  a pair is the item id, an underscore, the image type, an underscore, the first 8
  characters of the hex digest of the string "itemId_imageType", and ".jpg". The call
  looks this name up in the cache directory and hands it to the thread it starts, if it
  starts one. The name is a function of the pair alone: the client's other fields, the
  file system and earlier calls have no part in it, so every call for the pair computes
  the same name.
\<close>

theorem get_image_url_filename:
  assumes "img_dir c = Some d" and "d \<noteq> []"
  shows "case get_image_url md5_hexdigest c fs itemId imageType of
           (r, thread, evs) \<Rightarrow>
             (\<exists>rest. evs =
                PathExists (os_path_join d
                  (itemId @ ''_'' @ imageType @ ''_''
                     @ take 8 (md5_hexdigest (itemId @ ''_'' @ imageType)) @ ''.jpg'')) # rest)
             \<and> (thread = None
                \<or> thread = Some (emby_image_url c itemId imageType,
                     itemId @ ''_'' @ imageType @ ''_''
                       @ take 8 (md5_hexdigest (itemId @ ''_'' @ imageType)) @ ''.jpg''))
             \<and> image_filename md5_hexdigest itemId imageType =
                  itemId @ ''_'' @ imageType @ ''_''
                    @ take 8 (md5_hexdigest (itemId @ ''_'' @ imageType)) @ ''.jpg''"
  using assms
  by (simp add: get_image_url_def image_filename_def image_filepath_def Let_def)

theorem get_image_url_filename_witness:
  "img_dir (new_client ''emby.local'' ''KEY'' True 8096 5 ''u1'' False
              (Some ''/config/www/emby_images'') 30) = Some ''/config/www/emby_images''
   \<and> ''/config/www/emby_images'' \<noteq> []
   \<and> get_image_url (\<lambda>s. ''7ab37ce50c9e6b2ab51d3e44ab9a340e'')
        (new_client ''emby.local'' ''KEY'' True 8096 5 ''u1'' False
           (Some ''/config/www/emby_images'') 30)
        Map.empty ''42'' ''Primary'' =
      (''/local/emby_images/42_Primary_7ab37ce5.jpg'',
       Some (''https://emby.local:8096/Items/42/Images/Primary?maxHeight=360&maxWidth=640&quality=90&api_key=KEY'',
             ''42_Primary_7ab37ce5.jpg''),
       [PathExists ''/config/www/emby_images/42_Primary_7ab37ce5.jpg''])"
proof -
  have h: "img_dir (new_client ''emby.local'' ''KEY'' True 8096 5 ''u1'' False
              (Some ''/config/www/emby_images'') 30) = Some ''/config/www/emby_images''"
    by (simp add: new_client_def)
  have n: "''/config/www/emby_images'' \<noteq> []" by simp
  show ?thesis
    using get_image_url_filename [OF h n,
        where md5_hexdigest = "\<lambda>s. ''7ab37ce50c9e6b2ab51d3e44ab9a340e''"
          and fs = Map.empty and itemId = "''42''" and imageType = "''Primary''"]
    by (simp add: get_image_url_def emby_image_url_def new_client_def image_filepath_def
        image_filename_def local_url_def local_path_example os_path_join_def str_int_8096 Let_def
        sublist_code suffix_to_prefix)
qed

text \<open>
  C3. With no cache directory configured (\<open>img_dir\<close> is \<open>None\<close> or empty), \<open>get_image_url\<close>
  returns the remote address, http or https, host, port,
  \<open>/Items/{itemId}/Images/{imageType}\<close> and the fixed query with the API key; it starts no
  thread and has no event at all: no file system call, no request, no log record.
\<close>

theorem get_image_url_cache_disabled:
  assumes "img_dir_falsy c"
  shows "get_image_url md5_hexdigest c fs itemId imageType =
           (''http'' @ ssl c @ ''://'' @ host c @ '':'' @ str_int (port c) @ ''/Items/'' @ itemId
              @ ''/Images/'' @ imageType
              @ ''?maxHeight=360&maxWidth=640&quality=90&api_key='' @ api_key c,
            None, [])"
  using assms
  by (simp add: img_dir_falsy_def get_image_url_def emby_image_url_def split: option.splits)

theorem get_image_url_cache_disabled_witness:
  "img_dir_falsy (new_client ''emby.local'' ''KEY'' False 8096 5 ''u1'' False None 30)
   \<and> get_image_url (\<lambda>s. ''7ab37ce50c9e6b2ab51d3e44ab9a340e'')
        (new_client ''emby.local'' ''KEY'' False 8096 5 ''u1'' False None 30) Map.empty
        ''42'' ''Primary'' =
      (''http://emby.local:8096/Items/42/Images/Primary?maxHeight=360&maxWidth=640&quality=90&api_key=KEY'',
       None, [])"
proof -
  have h: "img_dir_falsy (new_client ''emby.local'' ''KEY'' False 8096 5 ''u1'' False None 30)"
    by (simp add: img_dir_falsy_def new_client_def)
  show ?thesis
    using h get_image_url_cache_disabled [OF h,
        where md5_hexdigest = "\<lambda>s. ''7ab37ce50c9e6b2ab51d3e44ab9a340e''"
          and fs = Map.empty and itemId = "''42''" and imageType = "''Primary''"]
    by (simp add: new_client_def str_int_8096)
qed

text \<open>
  C4. When the cache directory holds the marker \<open>/www/\<close>, it is some prefix, the marker
  and a rest that holds no marker, and \<open>get_image_url\<close> returns \<open>/local/\<close>, that rest, a
  slash and the file name; the translation does the same with any file name. For the
  directory \<open>/config/www/emby_images\<close> and the file name \<open>42_Primary_ab12cd34.jpg\<close> it gives
  \<open>/local/emby_images/42_Primary_ab12cd34.jpg\<close>.
\<close>

theorem get_image_url_path_translation:
  assumes "img_dir c = Some d" and "sublist ''/www/'' d"
  shows "(\<exists>pre post. d = pre @ ''/www/'' @ post \<and> \<not> sublist ''/www/'' post
            \<and> (\<forall>filename. local_url d filename = ''/local/'' @ post @ ''/'' @ filename)
            \<and> fst (get_image_url md5_hexdigest c fs itemId imageType) =
                ''/local/'' @ post @ ''/'' @ image_filename md5_hexdigest itemId imageType)
         \<and> local_url ''/config/www/emby_images'' ''42_Primary_ab12cd34.jpg'' =
             ''/local/emby_images/42_Primary_ab12cd34.jpg''"
proof
  from assms(2) obtain pre where d: "d = pre @ ''/www/'' @ local_path d"
    using local_path_after_marker by blast
  from assms(2) have "d \<noteq> []" by auto
  with assms have r: "fst (get_image_url md5_hexdigest c fs itemId imageType) =
      ''/local/'' @ local_path d @ ''/'' @ image_filename md5_hexdigest itemId imageType"
    by (simp add: get_image_url_def local_url_def Let_def)
  have "\<forall>filename. local_url d filename = ''/local/'' @ local_path d @ ''/'' @ filename"
    by (simp add: local_url_def)
  with d r local_path_no_marker [of d]
  show "\<exists>pre post. d = pre @ ''/www/'' @ post \<and> \<not> sublist ''/www/'' post
            \<and> (\<forall>filename. local_url d filename = ''/local/'' @ post @ ''/'' @ filename)
            \<and> fst (get_image_url md5_hexdigest c fs itemId imageType) =
                ''/local/'' @ post @ ''/'' @ image_filename md5_hexdigest itemId imageType"
    by blast
  show "local_url ''/config/www/emby_images'' ''42_Primary_ab12cd34.jpg'' =
      ''/local/emby_images/42_Primary_ab12cd34.jpg''"
    by (simp add: local_url_def local_path_example)
qed

theorem get_image_url_path_translation_witness:
  "img_dir (new_client ''emby.local'' ''KEY'' True 8096 5 ''u1'' False
              (Some ''/media/www/art/www/posters'') 30) = Some ''/media/www/art/www/posters''
   \<and> sublist ''/www/'' ''/media/www/art/www/posters''
   \<and> (\<exists>pre post. ''/media/www/art/www/posters'' = pre @ ''/www/'' @ post
          \<and> \<not> sublist ''/www/'' post
          \<and> fst (get_image_url (\<lambda>s. ''7ab37ce50c9e6b2ab51d3e44ab9a340e'')
                (new_client ''emby.local'' ''KEY'' True 8096 5 ''u1'' False
                   (Some ''/media/www/art/www/posters'') 30)
                Map.empty ''42'' ''Primary'') =
              ''/local/'' @ post @ ''/42_Primary_7ab37ce5.jpg'')
   \<and> fst (get_image_url (\<lambda>s. ''7ab37ce50c9e6b2ab51d3e44ab9a340e'')
          (new_client ''emby.local'' ''KEY'' True 8096 5 ''u1'' False
             (Some ''/media/www/art/www/posters'') 30)
          Map.empty ''42'' ''Primary'') = ''/local/posters/42_Primary_7ab37ce5.jpg''"
proof -
  have h: "img_dir (new_client ''emby.local'' ''KEY'' True 8096 5 ''u1'' False
              (Some ''/media/www/art/www/posters'') 30) = Some ''/media/www/art/www/posters''"
    by (simp add: new_client_def)
  have m: "sublist ''/www/'' ''/media/www/art/www/posters''"
    by (simp add: sublist_code)
  have f: "image_filename (\<lambda>s. ''7ab37ce50c9e6b2ab51d3e44ab9a340e'') ''42'' ''Primary'' =
      ''42_Primary_7ab37ce5.jpg''"
    by (simp add: image_filename_def)
  have r: "fst (get_image_url (\<lambda>s. ''7ab37ce50c9e6b2ab51d3e44ab9a340e'')
          (new_client ''emby.local'' ''KEY'' True 8096 5 ''u1'' False
             (Some ''/media/www/art/www/posters'') 30)
          Map.empty ''42'' ''Primary'') = ''/local/posters/42_Primary_7ab37ce5.jpg''"
    by (simp add: get_image_url_def new_client_def local_url_def local_path_def f Let_def
        sublist_code)
  from get_image_url_path_translation [OF h m,
      where md5_hexdigest = "\<lambda>s. ''7ab37ce50c9e6b2ab51d3e44ab9a340e''"
        and fs = Map.empty and itemId = "''42''" and imageType = "''Primary''"]
  obtain pre post where "''/media/www/art/www/posters'' = pre @ ''/www/'' @ post"
    and "\<not> sublist ''/www/'' post"
    and "fst (get_image_url (\<lambda>s. ''7ab37ce50c9e6b2ab51d3e44ab9a340e'')
          (new_client ''emby.local'' ''KEY'' True 8096 5 ''u1'' False
             (Some ''/media/www/art/www/posters'') 30)
          Map.empty ''42'' ''Primary'') =
        ''/local/'' @ post @ ''/'' @ image_filename (\<lambda>s. ''7ab37ce50c9e6b2ab51d3e44ab9a340e'') ''42'' ''Primary''"
    by blast
  with h m r f show ?thesis by auto
qed

text \<open>
  C9. With a cache directory configured that does not hold \<open>/www/\<close>, \<open>get_image_url\<close>
  logs a warning and returns the remote URL.
\<close>

theorem get_image_url_no_marker:
  assumes "img_dir c = Some d" and "d \<noteq> []" and "\<not> sublist ''/www/'' d"
  shows "fst (get_image_url md5_hexdigest c fs itemId imageType) =
           ''http'' @ ssl c @ ''://'' @ host c @ '':'' @ str_int (port c) @ ''/Items/'' @ itemId
             @ ''/Images/'' @ imageType
             @ ''?maxHeight=360&maxWidth=640&quality=90&api_key='' @ api_key c
         \<and> LogMsg WARNING ''Image directory doesn't contain /www/''
             \<in> set (snd (snd (get_image_url md5_hexdigest c fs itemId imageType)))"
  using assms by (simp add: get_image_url_def emby_image_url_def Let_def)

theorem get_image_url_no_marker_witness:
  "img_dir (new_client ''emby.local'' ''KEY'' True 8096 5 ''u1'' False
              (Some ''/tmp/emby_images'') 30) = Some ''/tmp/emby_images''
   \<and> ''/tmp/emby_images'' \<noteq> []
   \<and> \<not> sublist ''/www/'' ''/tmp/emby_images''
   \<and> get_image_url (\<lambda>s. ''7ab37ce50c9e6b2ab51d3e44ab9a340e'')
        (new_client ''emby.local'' ''KEY'' True 8096 5 ''u1'' False
           (Some ''/tmp/emby_images'') 30)
        Map.empty ''42'' ''Primary'' =
      (''https://emby.local:8096/Items/42/Images/Primary?maxHeight=360&maxWidth=640&quality=90&api_key=KEY'',
       Some (''https://emby.local:8096/Items/42/Images/Primary?maxHeight=360&maxWidth=640&quality=90&api_key=KEY'',
             ''42_Primary_7ab37ce5.jpg''),
       [PathExists ''/tmp/emby_images/42_Primary_7ab37ce5.jpg'',
        LogMsg WARNING ''Image directory doesn't contain /www/''])"
proof -
  have h: "img_dir (new_client ''emby.local'' ''KEY'' True 8096 5 ''u1'' False
              (Some ''/tmp/emby_images'') 30) = Some ''/tmp/emby_images''"
    by (simp add: new_client_def)
  have n: "''/tmp/emby_images'' \<noteq> []" by simp
  have m: "\<not> sublist ''/www/'' ''/tmp/emby_images''"
    by (simp add: sublist_code)
  show ?thesis
    using m get_image_url_no_marker [OF h n m,
        where md5_hexdigest = "\<lambda>s. ''7ab37ce50c9e6b2ab51d3e44ab9a340e''"
          and fs = Map.empty and itemId = "''42''" and imageType = "''Primary''"]
    by (simp add: get_image_url_def emby_image_url_def new_client_def image_filepath_def
        image_filename_def os_path_join_def str_int_8096 Let_def suffix_to_prefix)
qed

section \<open>The claims about \<open>get_view_categories\<close> and \<open>get_data\<close>\<close>

text \<open>
  When \<open>requests.get\<close> raises, \<open>get_view_categories\<close> returns \<open>None\<close> and records that the
  host cannot be reached. On a status other than 200 it returns the snapshot of an
  earlier call when there is one.
\<close>

lemma get_view_categories_no_reply:
  "fst (get_view_categories c (NoReply e)) = Inr None
   \<and> state (fst (snd (get_view_categories c (NoReply e)))) = Some (host c @ '' cannot be reached'')
   \<and> data (fst (snd (get_view_categories c (NoReply e)))) = data c"
  by (simp add: get_view_categories_def unreachable_def Let_def)

lemma get_view_categories_non_200_stale:
  assumes "status_code \<noteq> 200" and "data c ''ViewCategories'' = Some v"
  shows "fst (get_view_categories c (Reply status_code body)) = Inr (Some v)"
  using assms
  by (simp add: get_view_categories_def unreachable_def return_data_def Let_def)

text \<open>
  C6. When the request for the view categories fails, the call should return nothing,
  record that the host cannot be reached and raise nothing. The code does so when
  \<open>requests.get\<close> raises. On a status other than 200 it records the status text and then
  goes on to \<open>return self.data["ViewCategories"]\<close>: on a client that has no snapshot yet
  this raises \<open>KeyError\<close>, as evaluated here for a new client and status 500.
\<close>

theorem get_view_categories_non_200_raises:
  "get_view_categories (new_client ''emby.local'' ''KEY'' False 8096 5 ''u1'' False None 30)
     (Reply 500 (Inl (ValueError ''Expecting value''))) =
   (Inl (KeyError ''ViewCategories''),
    (new_client ''emby.local'' ''KEY'' False 8096 5 ''u1'' False None 30)
      \<lparr>state := Some ''emby.local cannot be reached''\<rparr>,
    [HttpGet ''http://emby.local:8096/Users/u1/Views?api_key=KEY'',
     LogMsg WARNING ''Could not reach url http://emby.local:8096/Users/u1/Views?api_key=KEY''])"
  by (simp add: get_view_categories_def unreachable_def return_data_def views_url_def
      new_client_def str_int_8096 Let_def)

text \<open>
  C8, as stated: on status 200 \<open>get_data\<close> returns at most \<open>max_items\<close> items, the first
  \<open>max_items\<close> of the response. \<open>__init__\<close> stores \<open>max_items\<close> as given, and for a negative
  value the slice \<open>[:max_items]\<close> counts from the end: with \<open>max_items = -1\<close> and three
  items in the response, two are returned.
\<close>

theorem get_data_negative_max_items:
  "fst (get_data (new_client ''emby.local'' ''KEY'' False 8096 (- 1) ''u1'' False None 30) ''7''
          (Reply 200 (Inr (JList [JStr ''a'', JStr ''b'', JStr ''c''])))) =
     Inr (Some (JList [JStr ''a'', JStr ''b'']))
   \<and> \<not> int (length [JStr ''a'', JStr ''b''])
         \<le> max_items (new_client ''emby.local'' ''KEY'' False 8096 (- 1) ''u1'' False None 30)
   \<and> take (nat (max_items (new_client ''emby.local'' ''KEY'' False 8096 (- 1) ''u1'' False None 30)))
         [JStr ''a'', JStr ''b'', JStr ''c''] \<noteq> [JStr ''a'', JStr ''b'']"
  by (simp add: get_data_def return_data_def slice_to_def new_client_def Let_def)

text \<open>
  C8, amended. On status 200 with a JSON list as body, \<open>get_data\<close> returns the slice
  \<open>[:max_items]\<close> of the list and stores it as the snapshot of the category. When
  \<open>max_items\<close> is not negative this is the first \<open>max_items\<close> elements in the order of the
  response, so at most \<open>max_items\<close> of them; when it is negative, it is the list without
  its last \<open>-max_items\<close> elements.
\<close>

theorem get_data_truncates:
  "fst (get_data c categoryId (Reply 200 (Inr (JList items)))) =
     Inr (Some (JList (if 0 \<le> max_items c then take (nat (max_items c)) items
                       else take (length items - nat (- max_items c)) items)))
   \<and> data (fst (snd (get_data c categoryId (Reply 200 (Inr (JList items)))))) categoryId =
       Some (JList (if 0 \<le> max_items c then take (nat (max_items c)) items
                    else take (length items - nat (- max_items c)) items))
   \<and> (0 \<le> max_items c \<longrightarrow> int (length (take (nat (max_items c)) items)) \<le> max_items c)"
proof -
  have "slice_to items (max_items c) =
      (if 0 \<le> max_items c then take (nat (max_items c)) items
       else take (length items - nat (- max_items c)) items)"
  proof (cases "0 \<le> max_items c")
    case True
    then show ?thesis by (simp add: slice_to_def)
  next
    case False
    then have "nat (int (length items) + max_items c) = length items - nat (- max_items c)"
      by linarith
    with False show ?thesis by (simp add: slice_to_def)
  qed
  moreover
  have "0 \<le> max_items c \<longrightarrow> int (length (take (nat (max_items c)) items)) \<le> max_items c"
    by (auto simp: min_def)
  ultimately show ?thesis
    by (simp add: get_data_def return_data_def Let_def del: length_take)
qed

theorem get_data_truncates_witness:
  "0 \<le> max_items (new_client ''emby.local'' ''KEY'' False 8096 2 ''u1'' False None 30)
   \<and> fst (get_data (new_client ''emby.local'' ''KEY'' False 8096 2 ''u1'' False None 30) ''7''
        (Reply 200 (Inr (JList [JStr ''a'', JStr ''b'', JStr ''c''])))) =
      Inr (Some (JList [JStr ''a'', JStr ''b'']))
   \<and> \<not> 0 \<le> max_items (new_client ''emby.local'' ''KEY'' False 8096 (- 2) ''u1'' False None 30)
   \<and> fst (get_data (new_client ''emby.local'' ''KEY'' False 8096 (- 2) ''u1'' False None 30) ''7''
        (Reply 200 (Inr (JList [JStr ''a'', JStr ''b'', JStr ''c''])))) =
      Inr (Some (JList [JStr ''a'']))"
  using get_data_truncates [where categoryId = "''7''"
      and c = "new_client ''emby.local'' ''KEY'' False 8096 2 ''u1'' False None 30"
      and items = "[JStr ''a'', JStr ''b'', JStr ''c'']"]
    get_data_truncates [where categoryId = "''7''"
      and c = "new_client ''emby.local'' ''KEY'' False 8096 (- 2) ''u1'' False None 30"
      and items = "[JStr ''a'', JStr ''b'', JStr ''c'']"]
  by (simp add: new_client_def)

text \<open>
  C10. On a status other than 200, \<open>get_data\<close> returns \<open>None\<close> and leaves the dict of
  snapshots as it was: a snapshot fetched before stays in the client and is not returned.
\<close>

theorem get_data_non_200:
  assumes "status_code \<noteq> 200"
  shows "fst (get_data c categoryId (Reply status_code body)) = Inr None
         \<and> data (fst (snd (get_data c categoryId (Reply status_code body)))) = data c"
  using assms by (simp add: get_data_def unreachable_def Let_def)

theorem get_data_non_200_witness:
  "(503::int) \<noteq> 200
   \<and> fst (get_data
        ((new_client ''emby.local'' ''KEY'' False 8096 2 ''u1'' False None 30)
           \<lparr>data := [''7'' \<mapsto> JList [JStr ''a'']]\<rparr>) ''7'' (Reply 503 (Inr JNull))) = Inr None
   \<and> data (fst (snd (get_data
        ((new_client ''emby.local'' ''KEY'' False 8096 2 ''u1'' False None 30)
           \<lparr>data := [''7'' \<mapsto> JList [JStr ''a'']]\<rparr>) ''7'' (Reply 503 (Inr JNull))))) ''7'' =
      Some (JList [JStr ''a''])"
proof -
  have h: "(503::int) \<noteq> 200" by simp
  show ?thesis
    using get_data_non_200 [OF h, where categoryId = "''7''" and body = "Inr JNull"
        and c = "(new_client ''emby.local'' ''KEY'' False 8096 2 ''u1'' False None 30)
           \<lparr>data := [''7'' \<mapsto> JList [JStr ''a'']]\<rparr>"]
    by simp
qed

section \<open>The claims about \<open>download_image_sync\<close>\<close>






section \<open>The claims about \<open>cleanup_old_images\<close>\<close>

lemma map_of_filter_other:
  "k \<noteq> x \<Longrightarrow> map_of (filter (\<lambda>entry. fst entry \<noteq> x) es) k = map_of es k"
  by (induction es) auto

lemma deletes_filter_other:
  "k \<noteq> x \<Longrightarrow>
     deletes d t re (filter (\<lambda>entry. fst entry \<noteq> x) es) k = deletes d t re es k"
  by (simp add: deletes_def map_of_filter_other)

text \<open>One visit: the entries it leaves, and what it adds to the events.\<close>

lemma visit_entries:
  "fst (visit d t re x (es, n, evs)) =
     (if deletes d t re es x then filter (\<lambda>entry. fst entry \<noteq> x) es else es)"
  by (simp add: visit_def deletes_def Let_def split: option.splits)

lemma visit_events_grow: "set evs \<subseteq> set (snd (snd (visit d t re x (es, n, evs))))"
  by (simp add: visit_def Let_def split: option.splits) blast

lemma visit_logs_failure:
  assumes "suffix ''.jpg'' x" and "map_of es x = Some f" and "mtime f < t"
    and "re (os_path_join d x) = Some e"
  shows "LogMsg WARNING (''Could not delete '' @ x @ '': '' @ error_text e)
           \<in> set (snd (snd (visit d t re x (es, n, evs))))"
  using assms by (simp add: visit_def Let_def)

lemma visit_logs_deletion:
  assumes "deletes d t re es x"
  shows "LogMsg DEBUG (''Deleted old image: '' @ x)
           \<in> set (snd (snd (visit d t re x (es, n, evs))))"
  using assms by (simp add: visit_def deletes_def Let_def split: option.splits)

text \<open>The loop: events are only added, and the entries left are those no visit removed.\<close>

lemma sweep_events_grow:
  "set (snd (snd acc)) \<subseteq> set (snd (snd (sweep d t re names acc)))"
proof (induction names arbitrary: acc)
  case Nil
  show ?case by simp
next
  case (Cons x rest)
  obtain es n evs where a: "acc = (es, n, evs)" by (cases acc) auto
  have "set (snd (snd acc)) \<subseteq> set (snd (snd (visit d t re x acc)))"
    unfolding a using visit_events_grow [of evs d t re x es n] by simp
  also have "\<dots> \<subseteq> set (snd (snd (sweep d t re rest (visit d t re x acc))))"
    by (rule Cons.IH)
  finally show ?case by simp
qed

lemma sweep_entries:
  "fst (sweep d t re names (es, n, evs)) =
     filter (\<lambda>entry. \<not> (fst entry \<in> set names \<and> deletes d t re es (fst entry))) es"
proof (induction names arbitrary: es n evs)
  case Nil
  show ?case by simp
next
  case (Cons x rest)
  obtain es1 n1 evs1 where v: "visit d t re x (es, n, evs) = (es1, n1, evs1)"
    by (cases "visit d t re x (es, n, evs)") auto
  with visit_entries [of d t re x es n evs]
  have es1: "es1 = (if deletes d t re es x then filter (\<lambda>entry. fst entry \<noteq> x) es else es)"
    by simp
  have "fst (sweep d t re (x # rest) (es, n, evs)) =
      filter (\<lambda>entry. \<not> (fst entry \<in> set rest \<and> deletes d t re es1 (fst entry))) es1"
    using Cons.IH [of es1 n1 evs1] v by simp
  also have "\<dots> =
      filter (\<lambda>entry. \<not> (fst entry \<in> set (x # rest) \<and> deletes d t re es (fst entry))) es"
  proof (cases "deletes d t re es x")
    case True
    with es1 have e: "es1 = filter (\<lambda>entry. fst entry \<noteq> x) es" by simp
    have eq: "(fst entry \<noteq> x
          \<and> \<not> (fst entry \<in> set rest \<and> deletes d t re es1 (fst entry))) =
        (\<not> (fst entry \<in> set (x # rest) \<and> deletes d t re es (fst entry)))" for entry
    proof (cases "fst entry = x")
      case True
      with \<open>deletes d t re es x\<close> show ?thesis by simp
    next
      case False
      then show ?thesis by (simp add: e deletes_filter_other)
    qed
    have "filter (\<lambda>entry. fst entry \<noteq> x
          \<and> \<not> (fst entry \<in> set rest \<and> deletes d t re es1 (fst entry))) es =
        filter (\<lambda>entry. \<not> (fst entry \<in> set (x # rest) \<and> deletes d t re es (fst entry))) es"
      by (rule filter_cong [OF refl]) (rule eq)
    moreover
    have "filter (\<lambda>entry. \<not> (fst entry \<in> set rest \<and> deletes d t re es1 (fst entry))) es1 =
        filter (\<lambda>entry. fst entry \<noteq> x
          \<and> \<not> (fst entry \<in> set rest \<and> deletes d t re es1 (fst entry))) es"
      by (subst (2) e) simp
    ultimately show ?thesis by simp
  next
    case False
    with es1 have "es1 = es" by simp
    then show ?thesis
      using False by (auto intro!: filter_cong)
  qed
  finally show ?case .
qed

lemma sweep_logs_failure:
  assumes "x \<in> set names" and "suffix ''.jpg'' x" and "map_of es x = Some f"
    and "mtime f < t" and "re (os_path_join d x) = Some e"
  shows "LogMsg WARNING (''Could not delete '' @ x @ '': '' @ error_text e)
           \<in> set (snd (snd (sweep d t re names (es, n, evs))))"
  using assms(1,3)
proof (induction names arbitrary: es n evs)
  case Nil
  then show ?case by simp
next
  case (Cons y rest)
  obtain es1 n1 evs1 where v: "visit d t re y (es, n, evs) = (es1, n1, evs1)"
    by (cases "visit d t re y (es, n, evs)") auto
  show ?case
  proof (cases "y = x")
    case True
    from visit_logs_failure [where x = x and es = es and f = f and t = t and re = re
        and d = d and e = e and n = n and evs = evs] assms(2,4,5) Cons.prems(2) True v
    have "LogMsg WARNING (''Could not delete '' @ x @ '': '' @ error_text e) \<in> set evs1"
      by simp
    with sweep_events_grow [of "(es1, n1, evs1)" d t re rest] v show ?thesis
      by auto
  next
    case False
    with Cons.prems(1) have "x \<in> set rest" by simp
    moreover from visit_entries [of d t re y es n evs] v False Cons.prems(2)
    have "map_of es1 x = Some f"
      by (auto simp: map_of_filter_other split: if_splits)
    ultimately show ?thesis
      using Cons.IH [of es1 n1 evs1] v by simp
  qed
qed

lemma sweep_logs_deletion:
  assumes "x \<in> set names" and "deletes d t re es x"
  shows "LogMsg DEBUG (''Deleted old image: '' @ x)
           \<in> set (snd (snd (sweep d t re names (es, n, evs))))"
  using assms
proof (induction names arbitrary: es n evs)
  case Nil
  then show ?case by simp
next
  case (Cons y rest)
  obtain es1 n1 evs1 where v: "visit d t re y (es, n, evs) = (es1, n1, evs1)"
    by (cases "visit d t re y (es, n, evs)") auto
  show ?case
  proof (cases "y = x")
    case True
    from visit_logs_deletion [where x = x and es = es and t = t and re = re
        and d = d and n = n and evs = evs] Cons.prems(2) True v
    have "LogMsg DEBUG (''Deleted old image: '' @ x) \<in> set evs1"
      by simp
    with sweep_events_grow [of "(es1, n1, evs1)" d t re rest] v show ?thesis
      by auto
  next
    case False
    with Cons.prems(1) have "x \<in> set rest" by simp
    moreover from visit_entries [of d t re y es n evs] v False Cons.prems(2)
    have "deletes d t re es1 x"
      by (auto simp: deletes_filter_other split: if_splits)
    ultimately show ?thesis
      using Cons.IH [of es1 n1 evs1] v by simp
  qed
qed

lemma cutoff_in_range:
  "\<bar>img_cache_days c * 86400\<bar> < 2 ^ 1024 - 2 ^ 970 \<Longrightarrow>
     cutoff c current_time = Inr (current_time - of_int (img_cache_days c * 86400))"
  by (simp add: cutoff_def py_float_def)

lemma cutoff_overflow:
  "2 ^ 1024 - 2 ^ 970 \<le> \<bar>img_cache_days c * 86400\<bar> \<Longrightarrow>
     cutoff c current_time = Inl (OverflowError ''int too large to convert to float'')"
  by (simp add: cutoff_def py_float_def)

text \<open>
  C2, as stated: the sweep deletes every file whose name ends in \<open>.jpg\<close> and whose
  last-modified time is older than the cutoff. This fails for a file on which \<open>os.remove\<close>
  raises: the loop logs the failure and goes on, and the file, 40 days old here with 30
  days of retention, is still in the directory after the sweep.
\<close>

theorem cleanup_old_images_keeps_undeletable:
  "suffix ''.jpg'' ''old.jpg''
   \<and> (0::real) < 3456000 - of_int (30 * 86400)
   \<and> cleanup_old_images
        (new_client ''emby.local'' ''KEY'' False 8096 5 ''u1'' False
           (Some ''/config/www/emby_images'') 30)
        (Dir [(''old.jpg'', \<lparr>mtime = 0, content = ''x''\<rparr>)])
        3456000 (\<lambda>p. Some (OSError ''Permission denied'')) =
      (Dir [(''old.jpg'', \<lparr>mtime = 0, content = ''x''\<rparr>)],
       [PathExists ''/config/www/emby_images'', ListDir ''/config/www/emby_images'',
        GetMtime ''/config/www/emby_images/old.jpg'',
        Remove ''/config/www/emby_images/old.jpg'',
        LogMsg WARNING ''Could not delete old.jpg: Permission denied''])"
  by (simp add: cleanup_old_images_def cutoff_def py_float_def visit_def new_client_def
      os_path_join_def suffix_to_prefix Let_def)

text \<open>
  C2, amended. For every state of the cache directory in which it can be listed, the
  sweep deletes exactly the entries whose name ends in \<open>.jpg\<close>, whose file has a
  last-modified time older than the current time minus \<open>img_cache_days * 86400\<close> seconds,
  and on which \<open>os.remove\<close> does not raise; each deletion is logged. An entry of that kind
  on which \<open>os.remove\<close> raises is logged with a warning and retained. Every other entry is
  retained: a \<open>.jpg\<close> file not older than the cutoff, and a file with another suffix whatever
  its age. The order of the entries is kept. When the directory does not exist, or
  \<open>os.listdir\<close> raises, or the cutoff cannot be computed (the integer
  \<open>img_cache_days * 86400\<close> is beyond the range of a float), nothing is deleted, and the
  last two are logged as errors.

  The names of a directory are distinct, so the file under a name is the file of its
  entry; the statement reads it with \<open>map_of\<close>, as \<open>os.path.getmtime\<close> reads it by path.
\<close>

theorem cleanup_old_images_deletes:
  assumes "img_dir c = Some d" and "d \<noteq> []"
  shows "(\<bar>img_cache_days c * 86400\<bar> < 2 ^ 1024 - 2 ^ 970 \<longrightarrow>
            fst (cleanup_old_images c (Dir es) current_time remove_error) =
              Dir (filter
                (\<lambda>(name, f).
                   \<not> (suffix ''.jpg'' name
                      \<and> (case map_of es name of
                            None \<Rightarrow> False
                          | Some f' \<Rightarrow>
                              mtime f' < current_time - of_int (img_cache_days c * 86400))
                      \<and> remove_error (os_path_join d name) = None))
                es)
            \<and> (\<forall>name f e.
                  map_of es name = Some f \<and> suffix ''.jpg'' name
                  \<and> mtime f < current_time - of_int (img_cache_days c * 86400)
                  \<and> remove_error (os_path_join d name) = Some e
                  \<longrightarrow> LogMsg WARNING (''Could not delete '' @ name @ '': '' @ error_text e)
                        \<in> set (snd (cleanup_old_images c (Dir es) current_time remove_error)))
            \<and> (\<forall>name f.
                  map_of es name = Some f \<and> suffix ''.jpg'' name
                  \<and> mtime f < current_time - of_int (img_cache_days c * 86400)
                  \<and> remove_error (os_path_join d name) = None
                  \<longrightarrow> LogMsg DEBUG (''Deleted old image: '' @ name)
                        \<in> set (snd (cleanup_old_images c (Dir es) current_time remove_error)))
            \<and> cleanup_old_images c (Unlistable e') current_time remove_error =
                (Unlistable e',
                 [PathExists d, ListDir d,
                  LogMsg ERROR (''Error during cleanup: '' @ error_text e')]))
         \<and> (2 ^ 1024 - 2 ^ 970 \<le> \<bar>img_cache_days c * 86400\<bar> \<longrightarrow>
              cleanup_old_images c (Dir es) current_time remove_error =
                (Dir es,
                 [PathExists d,
                  LogMsg ERROR ''Error during cleanup: int too large to convert to float''])
              \<and> cleanup_old_images c (Unlistable e') current_time remove_error =
                (Unlistable e',
                 [PathExists d,
                  LogMsg ERROR ''Error during cleanup: int too large to convert to float'']))
         \<and> cleanup_old_images c NoDir current_time remove_error = (NoDir, [PathExists d])"
proof (intro conjI impI)
  show "cleanup_old_images c NoDir current_time remove_error = (NoDir, [PathExists d])"
    using assms by (simp add: cleanup_old_images_def)
next
  assume "2 ^ 1024 - 2 ^ 970 \<le> \<bar>img_cache_days c * 86400\<bar>"
  then have o: "cutoff c current_time =
      Inl (OverflowError ''int too large to convert to float'')"
    by (rule cutoff_overflow)
  show "cleanup_old_images c (Dir es) current_time remove_error =
      (Dir es,
       [PathExists d, LogMsg ERROR ''Error during cleanup: int too large to convert to float''])"
    using assms by (simp add: cleanup_old_images_def o)
  show "cleanup_old_images c (Unlistable e') current_time remove_error =
      (Unlistable e',
       [PathExists d, LogMsg ERROR ''Error during cleanup: int too large to convert to float''])"
    using assms by (simp add: cleanup_old_images_def o)
next
  assume r: "\<bar>img_cache_days c * 86400\<bar> < 2 ^ 1024 - 2 ^ 970"
  define t where "t = current_time - of_int (img_cache_days c * 86400)"
  from r have i: "cutoff c current_time = Inr t"
    unfolding t_def by (rule cutoff_in_range)
  obtain es' n evs where
    s: "sweep d t remove_error (map fst es) (es, 0, [PathExists d, ListDir d]) = (es', n, evs)"
    by (cases "sweep d t remove_error (map fst es) (es, 0, [PathExists d, ListDir d])") auto
  from assms i s
  have whole: "cleanup_old_images c (Dir es) current_time remove_error =
      (Dir es',
       evs @ (if n > 0
              then [LogMsg INFO (''Cleaned up '' @ str_nat n @ '' old images (older than ''
                      @ str_int (img_cache_days c) @ '' days)'')]
              else []))"
    by (simp add: cleanup_old_images_def)
  have logs: "set (snd (snd (sweep d t remove_error (map fst es)
        (es, 0, [PathExists d, ListDir d]))))
      \<subseteq> set (snd (cleanup_old_images c (Dir es) current_time remove_error))"
    unfolding whole s by auto
  have listed: "name \<in> set (map fst es)" if "map_of es name = Some f" for name f
    using that by (auto dest: map_of_SomeD intro: rev_image_eqI)
  from sweep_entries [of d t remove_error "map fst es" es 0 "[PathExists d, ListDir d]"] s
  have "es' = filter (\<lambda>entry. \<not> (fst entry \<in> set (map fst es)
      \<and> deletes d t remove_error es (fst entry))) es"
    by simp
  also have "\<dots> = filter
      (\<lambda>(name, f).
         \<not> (suffix ''.jpg'' name
            \<and> (case map_of es name of None \<Rightarrow> False | Some f' \<Rightarrow> mtime f' < t)
            \<and> remove_error (os_path_join d name) = None))
      es"
    by (rule filter_cong [OF refl]) (auto simp: deletes_def)
  finally show "fst (cleanup_old_images c (Dir es) current_time remove_error) =
      Dir (filter
        (\<lambda>(name, f).
           \<not> (suffix ''.jpg'' name
              \<and> (case map_of es name of
                    None \<Rightarrow> False
                  | Some f' \<Rightarrow> mtime f' < current_time - of_int (img_cache_days c * 86400))
              \<and> remove_error (os_path_join d name) = None))
        es)"
    unfolding whole t_def by simp
  show "\<forall>name f e.
      map_of es name = Some f \<and> suffix ''.jpg'' name
      \<and> mtime f < current_time - of_int (img_cache_days c * 86400)
      \<and> remove_error (os_path_join d name) = Some e
      \<longrightarrow> LogMsg WARNING (''Could not delete '' @ name @ '': '' @ error_text e)
            \<in> set (snd (cleanup_old_images c (Dir es) current_time remove_error))"
  proof (intro allI impI)
    fix name f e
    assume a: "map_of es name = Some f \<and> suffix ''.jpg'' name
      \<and> mtime f < current_time - of_int (img_cache_days c * 86400)
      \<and> remove_error (os_path_join d name) = Some e"
    then have "LogMsg WARNING (''Could not delete '' @ name @ '': '' @ error_text e)
        \<in> set (snd (snd (sweep d t remove_error (map fst es)
              (es, 0, [PathExists d, ListDir d]))))"
      using listed [of name f]
      by (intro sweep_logs_failure [where f = f]) (simp_all add: t_def)
    with logs show "LogMsg WARNING (''Could not delete '' @ name @ '': '' @ error_text e)
        \<in> set (snd (cleanup_old_images c (Dir es) current_time remove_error))"
      by blast
  qed
  show "\<forall>name f.
      map_of es name = Some f \<and> suffix ''.jpg'' name
      \<and> mtime f < current_time - of_int (img_cache_days c * 86400)
      \<and> remove_error (os_path_join d name) = None
      \<longrightarrow> LogMsg DEBUG (''Deleted old image: '' @ name)
            \<in> set (snd (cleanup_old_images c (Dir es) current_time remove_error))"
  proof (intro allI impI)
    fix name f
    assume a: "map_of es name = Some f \<and> suffix ''.jpg'' name
      \<and> mtime f < current_time - of_int (img_cache_days c * 86400)
      \<and> remove_error (os_path_join d name) = None"
    then have "deletes d t remove_error es name"
      by (simp add: deletes_def t_def)
    with a listed [of name f]
    have "LogMsg DEBUG (''Deleted old image: '' @ name)
        \<in> set (snd (snd (sweep d t remove_error (map fst es)
              (es, 0, [PathExists d, ListDir d]))))"
      by (intro sweep_logs_deletion) simp_all
    with logs show "LogMsg DEBUG (''Deleted old image: '' @ name)
        \<in> set (snd (cleanup_old_images c (Dir es) current_time remove_error))"
      by blast
  qed
  show "cleanup_old_images c (Unlistable e') current_time remove_error =
      (Unlistable e',
       [PathExists d, ListDir d, LogMsg ERROR (''Error during cleanup: '' @ error_text e')])"
    using assms i by (simp add: cleanup_old_images_def)
qed

theorem cleanup_old_images_deletes_witness:
  "img_dir (new_client ''emby.local'' ''KEY'' False 8096 5 ''u1'' False
              (Some ''/config/www/emby_images'') 30) = Some ''/config/www/emby_images''
   \<and> ''/config/www/emby_images'' \<noteq> []
   \<and> \<bar>img_cache_days (new_client ''emby.local'' ''KEY'' False 8096 5 ''u1'' False
                          (Some ''/config/www/emby_images'') 30) * 86400\<bar>
        < 2 ^ 1024 - 2 ^ 970
   \<and> fst (cleanup_old_images
        (new_client ''emby.local'' ''KEY'' False 8096 5 ''u1'' False
           (Some ''/config/www/emby_images'') 30)
        (Dir [(''old.jpg'', \<lparr>mtime = 0, content = ''x''\<rparr>),
              (''locked.jpg'', \<lparr>mtime = 0, content = ''l''\<rparr>),
              (''new.jpg'', \<lparr>mtime = 3000000, content = ''y''\<rparr>),
              (''old.txt'', \<lparr>mtime = 0, content = ''z''\<rparr>)])
        3456000
        (\<lambda>p. if p = ''/config/www/emby_images/locked.jpg''
             then Some (OSError ''Permission denied'') else None)) =
      Dir [(''locked.jpg'', \<lparr>mtime = 0, content = ''l''\<rparr>),
           (''new.jpg'', \<lparr>mtime = 3000000, content = ''y''\<rparr>),
           (''old.txt'', \<lparr>mtime = 0, content = ''z''\<rparr>)]
   \<and> LogMsg WARNING ''Could not delete locked.jpg: Permission denied''
        \<in> set (snd (cleanup_old_images
        (new_client ''emby.local'' ''KEY'' False 8096 5 ''u1'' False
           (Some ''/config/www/emby_images'') 30)
        (Dir [(''old.jpg'', \<lparr>mtime = 0, content = ''x''\<rparr>),
              (''locked.jpg'', \<lparr>mtime = 0, content = ''l''\<rparr>),
              (''new.jpg'', \<lparr>mtime = 3000000, content = ''y''\<rparr>),
              (''old.txt'', \<lparr>mtime = 0, content = ''z''\<rparr>)])
        3456000
        (\<lambda>p. if p = ''/config/www/emby_images/locked.jpg''
             then Some (OSError ''Permission denied'') else None)))
   \<and> LogMsg DEBUG ''Deleted old image: old.jpg''
        \<in> set (snd (cleanup_old_images
        (new_client ''emby.local'' ''KEY'' False 8096 5 ''u1'' False
           (Some ''/config/www/emby_images'') 30)
        (Dir [(''old.jpg'', \<lparr>mtime = 0, content = ''x''\<rparr>),
              (''locked.jpg'', \<lparr>mtime = 0, content = ''l''\<rparr>),
              (''new.jpg'', \<lparr>mtime = 3000000, content = ''y''\<rparr>),
              (''old.txt'', \<lparr>mtime = 0, content = ''z''\<rparr>)])
        3456000
        (\<lambda>p. if p = ''/config/www/emby_images/locked.jpg''
             then Some (OSError ''Permission denied'') else None)))
   \<and> 2 ^ 1024 - 2 ^ 970
        \<le> \<bar>img_cache_days (new_client ''emby.local'' ''KEY'' False 8096 5 ''u1'' False
                              (Some ''/config/www/emby_images'') (- (2 ^ 1024))) * 86400\<bar>
   \<and> cleanup_old_images
        (new_client ''emby.local'' ''KEY'' False 8096 5 ''u1'' False
           (Some ''/config/www/emby_images'') (- (2 ^ 1024)))
        (Dir [(''old.jpg'', \<lparr>mtime = 0, content = ''x''\<rparr>)])
        3456000 (\<lambda>p. None) =
      (Dir [(''old.jpg'', \<lparr>mtime = 0, content = ''x''\<rparr>)],
       [PathExists ''/config/www/emby_images'',
        LogMsg ERROR ''Error during cleanup: int too large to convert to float''])"
proof -
  have h: "img_dir (new_client ''emby.local'' ''KEY'' False 8096 5 ''u1'' False
              (Some ''/config/www/emby_images'') days) = Some ''/config/www/emby_images''"
    for days
    by (simp add: new_client_def)
  have n: "''/config/www/emby_images'' \<noteq> []" by simp
  have d30: "img_cache_days (new_client ''emby.local'' ''KEY'' False 8096 5 ''u1'' False
      (Some ''/config/www/emby_images'') 30) = 30"
    by (simp add: new_client_def)
  have small: "\<bar>img_cache_days (new_client ''emby.local'' ''KEY'' False 8096 5 ''u1'' False
      (Some ''/config/www/emby_images'') 30) * 86400\<bar> < 2 ^ 1024 - 2 ^ 970"
    by (simp add: d30)
  have big: "2 ^ 1024 - 2 ^ 970
      \<le> \<bar>img_cache_days (new_client ''emby.local'' ''KEY'' False 8096 5 ''u1'' False
            (Some ''/config/www/emby_images'') (- (2 ^ 1024))) * 86400\<bar>"
    by (simp add: new_client_def)
  note usual = cleanup_old_images_deletes [OF h [of 30] n,
      where current_time = 3456000 and e' = "OSError []"
        and es = "[(''old.jpg'', \<lparr>mtime = 0, content = ''x''\<rparr>),
            (''locked.jpg'', \<lparr>mtime = 0, content = ''l''\<rparr>),
            (''new.jpg'', \<lparr>mtime = 3000000, content = ''y''\<rparr>),
            (''old.txt'', \<lparr>mtime = 0, content = ''z''\<rparr>)]"
        and remove_error = "\<lambda>p. if p = ''/config/www/emby_images/locked.jpg''
           then Some (OSError ''Permission denied'') else None",
      THEN conjunct1, THEN mp, OF small]
  note left = usual [THEN conjunct1]
  note warned = usual [THEN conjunct2, THEN conjunct1, rule_format,
      of "''locked.jpg''" "\<lparr>mtime = 0, content = ''l''\<rparr>" "OSError ''Permission denied''"]
  note deleted = usual [THEN conjunct2, THEN conjunct2, THEN conjunct1, rule_format,
      of "''old.jpg''" "\<lparr>mtime = 0, content = ''x''\<rparr>"]
  note overflow = cleanup_old_images_deletes [OF h [of "- (2 ^ 1024)"] n,
      where current_time = 3456000 and e' = "OSError []"
        and es = "[(''old.jpg'', \<lparr>mtime = 0, content = ''x''\<rparr>)]"
        and remove_error = "\<lambda>p. None",
      THEN conjunct2, THEN conjunct1, THEN mp, OF big, THEN conjunct1]
  have a: "fst (cleanup_old_images
        (new_client ''emby.local'' ''KEY'' False 8096 5 ''u1'' False
           (Some ''/config/www/emby_images'') 30)
        (Dir [(''old.jpg'', \<lparr>mtime = 0, content = ''x''\<rparr>),
              (''locked.jpg'', \<lparr>mtime = 0, content = ''l''\<rparr>),
              (''new.jpg'', \<lparr>mtime = 3000000, content = ''y''\<rparr>),
              (''old.txt'', \<lparr>mtime = 0, content = ''z''\<rparr>)])
        3456000
        (\<lambda>p. if p = ''/config/www/emby_images/locked.jpg''
             then Some (OSError ''Permission denied'') else None)) =
      Dir [(''locked.jpg'', \<lparr>mtime = 0, content = ''l''\<rparr>),
           (''new.jpg'', \<lparr>mtime = 3000000, content = ''y''\<rparr>),
           (''old.txt'', \<lparr>mtime = 0, content = ''z''\<rparr>)]"
    unfolding left by (simp add: d30 os_path_join_def suffix_to_prefix)
  have b: "LogMsg WARNING ''Could not delete locked.jpg: Permission denied''
        \<in> set (snd (cleanup_old_images
        (new_client ''emby.local'' ''KEY'' False 8096 5 ''u1'' False
           (Some ''/config/www/emby_images'') 30)
        (Dir [(''old.jpg'', \<lparr>mtime = 0, content = ''x''\<rparr>),
              (''locked.jpg'', \<lparr>mtime = 0, content = ''l''\<rparr>),
              (''new.jpg'', \<lparr>mtime = 3000000, content = ''y''\<rparr>),
              (''old.txt'', \<lparr>mtime = 0, content = ''z''\<rparr>)])
        3456000
        (\<lambda>p. if p = ''/config/www/emby_images/locked.jpg''
             then Some (OSError ''Permission denied'') else None)))"
    using warned by (simp add: d30 os_path_join_def suffix_to_prefix)
  have c: "LogMsg DEBUG ''Deleted old image: old.jpg''
        \<in> set (snd (cleanup_old_images
        (new_client ''emby.local'' ''KEY'' False 8096 5 ''u1'' False
           (Some ''/config/www/emby_images'') 30)
        (Dir [(''old.jpg'', \<lparr>mtime = 0, content = ''x''\<rparr>),
              (''locked.jpg'', \<lparr>mtime = 0, content = ''l''\<rparr>),
              (''new.jpg'', \<lparr>mtime = 3000000, content = ''y''\<rparr>),
              (''old.txt'', \<lparr>mtime = 0, content = ''z''\<rparr>)])
        3456000
        (\<lambda>p. if p = ''/config/www/emby_images/locked.jpg''
             then Some (OSError ''Permission denied'') else None)))"
    using deleted by (simp add: d30 os_path_join_def suffix_to_prefix)
  show ?thesis
    by (intro conjI h n small a b c big overflow)
qed

section \<open>The claims about calls and downloads together\<close>

lemma get_image_url_thread:
  assumes "img_dir c = Some d" and "d \<noteq> []"
  shows "fst (snd (get_image_url md5_hexdigest c fs itemId imageType)) =
           (if fs (image_filepath md5_hexdigest d itemId imageType) = None
            then Some (emby_image_url c itemId imageType,
                       image_filename md5_hexdigest itemId imageType)
            else None)"
  using assms by (simp add: get_image_url_def Let_def)

lemma get_image_url_thread_disabled:
  assumes "img_dir_falsy c"
  shows "fst (snd (get_image_url md5_hexdigest c fs itemId imageType)) = None"
  using assms
  by (simp add: get_image_url_def img_dir_falsy_def split: option.splits)

text \<open>A download writes to no path but that of its file name in the cache directory.\<close>

lemma download_image_sync_dom:
  assumes "img_dir c = Some d"
  shows "dom (fst (snd (download_image_sync c fs now open_error reply url filename)))
           \<subseteq> insert (os_path_join d filename) (dom fs)"
proof (cases reply)
  case (NoImage e)
  then show ?thesis by (auto simp: download_image_sync_def)
next
  case (Image status_code chunks loop_error)
  with assms show ?thesis
    by (cases open_error; cases loop_error)
      (auto simp: download_image_sync_def Let_def)
qed

lemma resolved_Cons: "set (resolved (a # acts)) = set (resolved [a]) \<union> set (resolved acts)"
  by (cases a) auto

text \<open>
  One action keeps the files within the files at the start and the paths of the pairs
  asked for, and the file names of the threads within the names of these pairs.
\<close>

lemma step_keeps:
  assumes d: "img_dir c = Some d" "d \<noteq> []"
    and f: "dom (files w) \<subseteq> A \<union> (\<lambda>(i, t). image_filepath md5_hexdigest d i t) ` S"
    and t: "snd ` set (threads w) \<subseteq> (\<lambda>(i, t). image_filename md5_hexdigest i t) ` S"
  shows "dom (files (step md5_hexdigest c w a))
           \<subseteq> A \<union> (\<lambda>(i, t). image_filepath md5_hexdigest d i t) ` (S \<union> set (resolved [a]))
         \<and> snd ` set (threads (step md5_hexdigest c w a))
           \<subseteq> (\<lambda>(i, t). image_filename md5_hexdigest i t) ` (S \<union> set (resolved [a]))"
proof (cases a)
  case (Resolve itemId imageType)
  obtain r th evs where g: "get_image_url md5_hexdigest c (files w) itemId imageType = (r, th, evs)"
    by (cases "get_image_url md5_hexdigest c (files w) itemId imageType") auto
  with get_image_url_thread [OF d, of md5_hexdigest "files w" itemId imageType]
  have "th = None
      \<or> th = Some (emby_image_url c itemId imageType, image_filename md5_hexdigest itemId imageType)"
    by (simp split: if_splits)
  with Resolve g f t show ?thesis
    by auto
next
  case (Finish k now open_error reply)
  show ?thesis
  proof (cases "k < length (threads w)")
    case False
    with Finish f t show ?thesis by auto
  next
    case True
    obtain url filename where th: "threads w ! k = (url, filename)"
      by (cases "threads w ! k") auto
    obtain ok fs' evs where
      dl: "download_image_sync c (files w) now open_error reply url filename = (ok, fs', evs)"
      by (cases "download_image_sync c (files w) now open_error reply url filename") auto
    from True th have "filename \<in> snd ` set (threads w)"
      by (metis nth_mem snd_conv image_eqI)
    with t obtain i' t' where it: "(i', t') \<in> S"
      and fn: "filename = image_filename md5_hexdigest i' t'"
      by auto
    from download_image_sync_dom [OF d(1), of "files w" now open_error reply url filename] dl
    have "dom fs' \<subseteq> insert (os_path_join d filename) (dom (files w))"
      by simp
    moreover from it fn
    have "os_path_join d filename \<in> (\<lambda>(i, t). image_filepath md5_hexdigest d i t) ` S"
      by (force simp: image_filepath_def)
    ultimately
    have a1: "dom fs' \<subseteq> A \<union> (\<lambda>(i, t). image_filepath md5_hexdigest d i t) ` S"
      using f by blast
    have "set (take k (threads w) @ drop (Suc k) (threads w)) \<subseteq> set (threads w)"
      by (auto dest: in_set_takeD in_set_dropD)
    with t have a2: "snd ` set (take k (threads w) @ drop (Suc k) (threads w))
        \<subseteq> (\<lambda>(i, t). image_filename md5_hexdigest i t) ` S"
      by blast
    from Finish True th dl a1 a2 show ?thesis
      by simp
  qed
qed

lemma run_keeps:
  assumes d: "img_dir c = Some d" "d \<noteq> []"
  shows "dom (files w) \<subseteq> A \<union> (\<lambda>(i, t). image_filepath md5_hexdigest d i t) ` S
     \<Longrightarrow> snd ` set (threads w) \<subseteq> (\<lambda>(i, t). image_filename md5_hexdigest i t) ` S
     \<Longrightarrow> dom (files (run md5_hexdigest c w acts))
           \<subseteq> A \<union> (\<lambda>(i, t). image_filepath md5_hexdigest d i t) ` (S \<union> set (resolved acts))"
proof (induction acts arbitrary: w S)
  case Nil
  then show ?case by (simp add: run_def)
next
  case (Cons a acts)
  from step_keeps [OF d Cons.prems, of a]
  have "dom (files (run md5_hexdigest c (step md5_hexdigest c w a) acts))
      \<subseteq> A \<union> (\<lambda>(i, t). image_filepath md5_hexdigest d i t)
              ` ((S \<union> set (resolved [a])) \<union> set (resolved acts))"
    by (intro Cons.IH) simp_all
  then show ?case
    by (simp add: run_def resolved_Cons [of a acts] Un_assoc)
qed

text \<open>
  C7. With a cache directory configured, \<open>get_image_url\<close> starts a download thread exactly
  when no file exists at the path of the computed name. After any sequence of calls of
  \<open>get_image_url\<close> and of runs of the started downloads, whatever these downloads meet,
  every file that was not there at the start is at the path computed for one of the pairs
  asked for; so the new files are at most as many as the distinct pairs, one path per pair.
\<close>

theorem one_cache_file_per_pair:
  assumes "img_dir c = Some d" and "d \<noteq> []"
  shows "(fst (snd (get_image_url md5_hexdigest c fs itemId imageType)) \<noteq> None) =
           (fs (image_filepath md5_hexdigest d itemId imageType) = None)
         \<and> dom (files (run md5_hexdigest c \<lparr>files = fs, threads = []\<rparr> acts))
             \<subseteq> dom fs \<union> (\<lambda>(i, t). image_filepath md5_hexdigest d i t) ` set (resolved acts)
         \<and> finite (dom (files (run md5_hexdigest c \<lparr>files = fs, threads = []\<rparr> acts)) - dom fs)
         \<and> card (dom (files (run md5_hexdigest c \<lparr>files = fs, threads = []\<rparr> acts)) - dom fs)
             \<le> card (set (resolved acts))"
proof -
  let ?new = "dom (files (run md5_hexdigest c \<lparr>files = fs, threads = []\<rparr> acts)) - dom fs"
  let ?paths = "(\<lambda>(i, t). image_filepath md5_hexdigest d i t) ` set (resolved acts)"
  have started: "(fst (snd (get_image_url md5_hexdigest c fs itemId imageType)) \<noteq> None) =
      (fs (image_filepath md5_hexdigest d itemId imageType) = None)"
    by (simp add: get_image_url_thread [OF assms])
  have "dom (files (run md5_hexdigest c \<lparr>files = fs, threads = []\<rparr> acts))
      \<subseteq> dom fs \<union> (\<lambda>(i, t). image_filepath md5_hexdigest d i t) ` ({} \<union> set (resolved acts))"
    by (rule run_keeps [OF assms]) simp_all
  then have within: "dom (files (run md5_hexdigest c \<lparr>files = fs, threads = []\<rparr> acts))
      \<subseteq> dom fs \<union> ?paths"
    by simp
  then have sub: "?new \<subseteq> ?paths" by blast
  have fin: "finite ?paths" by simp
  from sub fin have "finite ?new" by (rule finite_subset)
  moreover from sub fin have "card ?new \<le> card ?paths" by (simp add: card_mono)
  moreover have "card ?paths \<le> card (set (resolved acts))" by (simp add: card_image_le)
  ultimately show ?thesis using started within by simp
qed

theorem one_cache_file_per_pair_witness:
  "img_dir (new_client ''emby.local'' ''KEY'' False 8096 5 ''u1'' False
              (Some ''/config/www/emby_images'') 30) = Some ''/config/www/emby_images''
   \<and> ''/config/www/emby_images'' \<noteq> []
   \<and> run (\<lambda>s. ''7ab37ce50c9e6b2ab51d3e44ab9a340e'')
        (new_client ''emby.local'' ''KEY'' False 8096 5 ''u1'' False
           (Some ''/config/www/emby_images'') 30)
        \<lparr>files = Map.empty, threads = []\<rparr>
        [Resolve ''42'' ''Primary'', Resolve ''42'' ''Primary'',
         Finish 0 1000 None (Image 200 [''abc''] None),
         Finish 0 1001 None (Image 200 [''abc'', ''def''] None),
         Resolve ''42'' ''Primary''] =
      \<lparr>files = [''/config/www/emby_images/42_Primary_7ab37ce5.jpg''
                  \<mapsto> \<lparr>mtime = 1001, content = ''abcdef''\<rparr>],
       threads = []\<rparr>
   \<and> card (dom (files (run (\<lambda>s. ''7ab37ce50c9e6b2ab51d3e44ab9a340e'')
        (new_client ''emby.local'' ''KEY'' False 8096 5 ''u1'' False
           (Some ''/config/www/emby_images'') 30)
        \<lparr>files = Map.empty, threads = []\<rparr>
        [Resolve ''42'' ''Primary'', Resolve ''42'' ''Primary'',
         Finish 0 1000 None (Image 200 [''abc''] None),
         Finish 0 1001 None (Image 200 [''abc'', ''def''] None),
         Resolve ''42'' ''Primary''])) - dom (Map.empty :: fs)) \<le> 1"
proof -
  have h: "img_dir (new_client ''emby.local'' ''KEY'' False 8096 5 ''u1'' False
              (Some ''/config/www/emby_images'') 30) = Some ''/config/www/emby_images''"
    by (simp add: new_client_def)
  have n: "''/config/www/emby_images'' \<noteq> []" by simp
  have r: "run (\<lambda>s. ''7ab37ce50c9e6b2ab51d3e44ab9a340e'')
        (new_client ''emby.local'' ''KEY'' False 8096 5 ''u1'' False
           (Some ''/config/www/emby_images'') 30)
        \<lparr>files = Map.empty, threads = []\<rparr>
        [Resolve ''42'' ''Primary'', Resolve ''42'' ''Primary'',
         Finish 0 1000 None (Image 200 [''abc''] None),
         Finish 0 1001 None (Image 200 [''abc'', ''def''] None),
         Resolve ''42'' ''Primary''] =
      \<lparr>files = [''/config/www/emby_images/42_Primary_7ab37ce5.jpg''
                  \<mapsto> \<lparr>mtime = 1001, content = ''abcdef''\<rparr>],
       threads = []\<rparr>"
    by (simp add: run_def get_image_url_def download_image_sync_def new_client_def
        image_filepath_def image_filename_def os_path_join_def suffix_to_prefix sublist_code
        Let_def)
  have s: "card (set (resolved [Resolve ''42'' ''Primary'', Resolve ''42'' ''Primary'',
         Finish 0 1000 None (Image 200 [''abc''] None),
         Finish 0 1001 None (Image 200 [''abc'', ''def''] None),
         Resolve ''42'' ''Primary''])) = 1"
    by simp
  show ?thesis
    using h r s one_cache_file_per_pair [OF h n,
        where md5_hexdigest = "\<lambda>s. ''7ab37ce50c9e6b2ab51d3e44ab9a340e''"
          and fs = Map.empty and itemId = "''42''" and imageType = "''Primary''"
          and acts = "[Resolve ''42'' ''Primary'', Resolve ''42'' ''Primary'',
            Finish 0 1000 None (Image 200 [''abc''] None),
            Finish 0 1001 None (Image 200 [''abc'', ''def''] None),
            Resolve ''42'' ''Primary'']"]
    by simp
qed

section \<open>The constructor\<close>

text \<open>
  With a cache directory configured and created, \<open>__init__\<close> runs the sweep once, on the
  directory that exists from then on; with none it touches nothing.
\<close>

lemma init_runs_cleanup:
  assumes "img_dir' = Some d" and "d \<noteq> []"
  shows "init host' api_key' ssl' port' max_items' user_id' show_episodes' img_dir' days
           dir current_time None remove_error =
         Inr (new_client host' api_key' ssl' port' max_items' user_id' show_episodes' img_dir' days,
              fst (cleanup_old_images
                     (new_client host' api_key' ssl' port' max_items' user_id' show_episodes'
                        img_dir' days)
                     (case dir of NoDir \<Rightarrow> Dir [] | _ \<Rightarrow> dir) current_time remove_error),
              [MakeDirs d, LogMsg INFO (''Image directory: '' @ d)]
                @ snd (cleanup_old_images
                     (new_client host' api_key' ssl' port' max_items' user_id' show_episodes'
                        img_dir' days)
                     (case dir of NoDir \<Rightarrow> Dir [] | _ \<Rightarrow> dir) current_time remove_error))"
proof -
  have "img_dir (new_client host' api_key' ssl' port' max_items' user_id' show_episodes'
      img_dir' days) = Some d"
    using assms(1) by (simp add: new_client_def)
  with assms(2) show ?thesis
    by (simp add: init_def Let_def split: prod.splits)
qed

lemma init_without_cache:
  "init host' api_key' ssl' port' max_items' user_id' show_episodes' None days
     dir current_time makedirs_error remove_error =
   Inr (new_client host' api_key' ssl' port' max_items' user_id' show_episodes' None days, dir, [])"
  by (simp add: init_def new_client_def)

end
